theory Spec2Isabelle
  imports Main
begin

section \<open>The paint shop notebook: data\<close>

text \<open>
  The notebook \<^verbatim>\<open>paint_shop.ipynb\<close> paints a sequence of cars. A car type is any label
  (a Python string), a colour is one of the strings \<^verbatim>\<open>"white"\<close> and \<^verbatim>\<open>"black"\<close>.
  The only exception the heuristic cells can raise is Python's \<^verbatim>\<open>KeyError\<close>, from a
  dictionary lookup of a car type that has no demand entry.
\<close>

datatype color = White | Black

datatype error = KeyError

text \<open>
  The heuristic cells keep four global variables: \<^verbatim>\<open>changes\<close>, \<^verbatim>\<open>colors\<close>,
  \<^verbatim>\<open>result\<close> and \<^verbatim>\<open>current_color\<close>. The dictionary \<^verbatim>\<open>colors\<close> has the two keys
  \<^verbatim>\<open>"white"\<close> and \<^verbatim>\<open>"black"\<close>, so it is a function on \<^typ>\<open>color\<close>; what it holds
  per colour differs between the two cells (a set of car types, or a dictionary from car
  type to remaining demand), hence the type parameter.
\<close>

record 'c heuristic_state =
  changes :: nat
  colors :: "color \<Rightarrow> 'c"
  result :: "color list"
  current_color :: color

section \<open>The binary heuristic (first heuristic cell)\<close>

text \<open>
  \<^verbatim>\<open>
  def paint_car(colors_dict, result_list, color, car_type):
      colors_dict[color].add(car_type)
      result_list.append(color)
  \<close>
\<close>

definition paint_car_set ::
  "(color \<Rightarrow> 'a set) \<Rightarrow> color list \<Rightarrow> color \<Rightarrow> 'a \<Rightarrow> (color \<Rightarrow> 'a set) \<times> color list" where
  "paint_car_set colors_dict result_list color car_type =
     (colors_dict(color := insert car_type (colors_dict color)), result_list @ [color])"

text \<open>
  The body of the loop:
  \<^verbatim>\<open>
  if car not in colors[current_color]:
      paint_car(colors, result, current_color, car)
  else:
      # change color
      changes += 1
      if current_color == "white":
          current_color = "black"
      else:
          current_color = "white"
      paint_car(colors, result, current_color, car)
  \<close>
\<close>

definition binary_step :: "'a \<Rightarrow> 'a set heuristic_state \<Rightarrow> 'a set heuristic_state" where
  "binary_step car s =
     (if car \<notin> colors s (current_color s) then
        (case paint_car_set (colors s) (result s) (current_color s) car of
           (cd, rl) \<Rightarrow> s\<lparr>colors := cd, result := rl\<rparr>)
      else
        (let ch = changes s + 1;
             cc = (if current_color s = White then Black else White)
         in case paint_car_set (colors s) (result s) cc car of
           (cd, rl) \<Rightarrow> \<lparr>changes = ch, colors = cd, result = rl, current_color = cc\<rparr>))"

fun binary_loop :: "'a list \<Rightarrow> 'a set heuristic_state \<Rightarrow> 'a set heuristic_state" where
  "binary_loop [] s = s"
| "binary_loop (car # rest) s = binary_loop rest (binary_step car s)"

definition binary_init :: "'a set heuristic_state" where
  "binary_init = \<lparr>changes = 0, colors = (\<lambda>_. {}), result = [], current_color = White\<rparr>"

text \<open>The cell prints \<^verbatim>\<open>result\<close> and \<^verbatim>\<open>changes\<close>.\<close>

definition binary_heuristic :: "'a list \<Rightarrow> color list \<times> nat" where
  "binary_heuristic sequence =
     (let s = binary_loop sequence binary_init in (result s, changes s))"

section \<open>The general heuristic (second heuristic cell)\<close>

text \<open>
  \<^verbatim>\<open>
  colors = {"white": dict(demand_white), "black": dict(demand_black)}

  def paint_car(colors_dict, result_list, color, car_type):
      colors_dict[color][car_type] -= 1
      result_list.append(color)
  \<close>
  A demand dictionary is a map from car type to a Python integer. Reading a missing key
  raises \<^verbatim>\<open>KeyError\<close>. Nothing stops the counter from going below zero.
\<close>

type_synonym 'a demand = "'a \<rightharpoonup> int"

definition paint_car ::
  "(color \<Rightarrow> 'a demand) \<Rightarrow> color list \<Rightarrow> color \<Rightarrow> 'a \<Rightarrow>
     error + ((color \<Rightarrow> 'a demand) \<times> color list)" where
  "paint_car colors_dict result_list color car_type =
     (case colors_dict color car_type of
        None \<Rightarrow> Inl KeyError
      | Some c \<Rightarrow>
          Inr (colors_dict(color := (colors_dict color)(car_type \<mapsto> c - 1)),
               result_list @ [color]))"

text \<open>
  The body of the loop:
  \<^verbatim>\<open>
  if colors[current_color][car] > 0:
      paint_car(colors, result, current_color, car)
  else:
      # change color
      changes += 1
      if current_color == "white":
          current_color = "black"
      else:
          current_color = "white"
      paint_car(colors, result, current_color, car)
  \<close>
\<close>

definition heuristic_step ::
  "'a \<Rightarrow> 'a demand heuristic_state \<Rightarrow> error + 'a demand heuristic_state" where
  "heuristic_step car s =
     (case colors s (current_color s) car of
        None \<Rightarrow> Inl KeyError
      | Some c \<Rightarrow>
          if c > 0 then
            (case paint_car (colors s) (result s) (current_color s) car of
               Inl e \<Rightarrow> Inl e
             | Inr (cd, rl) \<Rightarrow> Inr (s\<lparr>colors := cd, result := rl\<rparr>))
          else
            (let ch = changes s + 1;
                 cc = (if current_color s = White then Black else White)
             in case paint_car (colors s) (result s) cc car of
               Inl e \<Rightarrow> Inl e
             | Inr (cd, rl) \<Rightarrow>
                 Inr \<lparr>changes = ch, colors = cd, result = rl, current_color = cc\<rparr>))"

fun heuristic_loop ::
  "'a list \<Rightarrow> 'a demand heuristic_state \<Rightarrow> error + 'a demand heuristic_state" where
  "heuristic_loop [] s = Inr s"
| "heuristic_loop (car # rest) s =
     (case heuristic_step car s of
        Inl e \<Rightarrow> Inl e
      | Inr s' \<Rightarrow> heuristic_loop rest s')"

definition heuristic_init :: "'a demand \<Rightarrow> 'a demand \<Rightarrow> 'a demand heuristic_state" where
  "heuristic_init demand_white demand_black =
     \<lparr>changes = 0,
      colors = (\<lambda>c. case c of White \<Rightarrow> demand_white | Black \<Rightarrow> demand_black),
      result = [], current_color = White\<rparr>"

definition heuristic :: "'a list \<Rightarrow> 'a demand \<Rightarrow> 'a demand \<Rightarrow> error + (color list \<times> nat)" where
  "heuristic sequence demand_white demand_black =
     (case heuristic_loop sequence (heuristic_init demand_white demand_black) of
        Inl e \<Rightarrow> Inl e
      | Inr s \<Rightarrow> Inr (result s, changes s))"

section \<open>The exact models (the two GAMSPy cells)\<close>

text \<open>
  Both models are handed to an external solver (SBB, CPLEX), which is not part of the
  notebook. What the notebook writes is the program: the sets, the variables, the
  equations and the objective. The embedding is that program; the solver is taken by its
  contract, that it returns a feasible point of the program at which the objective is least
  (the notebook's runs report a normal solver status). The solver's levels are floating
  point numbers equal to 0.0 or 1.0; the embedding takes them as the integers 0 and 1.

  The set \<^verbatim>\<open>i\<close> holds the positions and the set \<^verbatim>\<open>j\<close> the car types; both are filled by
  domain forwarding from the records of \<^verbatim>\<open>IJ\<close>,
  \<^verbatim>\<open>[(i + 1, sequence[i]) for i in range(len(sequence))]\<close>. Positions are counted from 0
  here.
\<close>

definition IJ :: "'a list \<Rightarrow> (nat \<times> 'a) list" where
  "IJ sequence = zip [0..<length sequence] sequence"

text \<open>
  A binary variable over \<^verbatim>\<open>i\<close> is a list of zeros and ones, one per position.
  \<^verbatim>\<open>i.lead(1)\<close> is GAMSPy's linear lead, the GAMS expression \<^verbatim>\<open>i+1\<close>. At the last
  position the reference \<^verbatim>\<open>X[i.lead(1)]\<close> names an element that does not exist; in the
  body of a GAMS equation or of a sum such a term vanishes, it is zero. The equations
  below are declared over the whole of \<^verbatim>\<open>i\<close>, so they are generated for the last position
  too: the run on 128 cars and 6 types reports 269 equations (128 + 128 + 6 + 6 and the
  objective) and 257 variables. The program is taken for one instance on its own: the
  sets hold the positions and the types of that instance only.
\<close>

definition binary_var :: "nat \<Rightarrow> int list \<Rightarrow> bool" where
  "binary_var n V = (length V = n \<and> list_all (\<lambda>v. v = 0 \<or> v = 1) V)"

definition var_ref :: "int list \<Rightarrow> nat \<Rightarrow> int" where
  "var_ref V i = (if i < length V then V ! i else 0)"

text \<open>\<^verbatim>\<open>gp.Sum(IJ[i, j], f[i])\<close> for a fixed car type \<^verbatim>\<open>j\<close>.\<close>

definition sum_IJ :: "'a list \<Rightarrow> 'a \<Rightarrow> (nat \<Rightarrow> int) \<Rightarrow> int" where
  "sum_IJ sequence j f = sum_list (map f (map fst (filter (\<lambda>r. snd r = j) (IJ sequence))))"

subsection \<open>The binary model \<^verbatim>\<open>paintshop\<close>\<close>

text \<open>
  \<^verbatim>\<open>
  obj = gp.Sum(i, sqr(X[i] - X[i.lead(1)]))
  equation_two[j] = gp.Sum(IJ[i, j], X[i]) == 1
  \<close>
\<close>

definition obj :: "int list \<Rightarrow> int" where
  "obj X = sum_list (map (\<lambda>i. (var_ref X i - var_ref X (i + 1))\<^sup>2) [0..<length X])"

definition equation_two :: "'a list \<Rightarrow> int list \<Rightarrow> bool" where
  "equation_two sequence X =
     list_all (\<lambda>j. sum_IJ sequence j (var_ref X) = 1) (remdups sequence)"

definition paintshop_feasible :: "'a list \<Rightarrow> int list \<Rightarrow> bool" where
  "paintshop_feasible sequence X =
     (binary_var (length sequence) X \<and> equation_two sequence X)"

text \<open>What the solver may return: a feasible point with the least objective.\<close>

definition paintshop_optimal :: "'a list \<Rightarrow> int list \<Rightarrow> bool" where
  "paintshop_optimal sequence X =
     (paintshop_feasible sequence X \<and>
      list_all (\<lambda>X'. obj X \<le> obj X')
        (filter (paintshop_feasible sequence) (List.n_lists (length sequence) [0, 1])))"

subsection \<open>The general model \<^verbatim>\<open>MultiPaintshop\<close>\<close>

text \<open>
  A GAMS parameter built from the records of a dictionary is zero where the dictionary
  has no record.
\<close>

definition param :: "'a demand \<Rightarrow> 'a \<Rightarrow> int" where
  "param d j = (case d j of None \<Rightarrow> 0 | Some v \<Rightarrow> v)"

text \<open>
  \<^verbatim>\<open>
  LinearizeObjective1[i] = Z[i] >= X[i] - X[i.lead(1)]
  LinearizeObjective2[i] = Z[i] >= X[i.lead(1)] - X[i]
  MeetBlackDemand[j] = gp.Sum(IJ[i, j], X[i]) == black_demand[j]
  MeetWhiteDemand[j] = gp.Sum(IJ[i, j], 1 - X[i]) == white_demand[j]
  objective=gp.Sum(i, Z[i])
  \<close>
\<close>

definition LinearizeObjective1 :: "int list \<Rightarrow> int list \<Rightarrow> bool" where
  "LinearizeObjective1 X Z =
     list_all (\<lambda>i. var_ref Z i \<ge> var_ref X i - var_ref X (i + 1)) [0..<length X]"

definition LinearizeObjective2 :: "int list \<Rightarrow> int list \<Rightarrow> bool" where
  "LinearizeObjective2 X Z =
     list_all (\<lambda>i. var_ref Z i \<ge> var_ref X (i + 1) - var_ref X i) [0..<length X]"

definition MeetBlackDemand :: "'a list \<Rightarrow> 'a demand \<Rightarrow> int list \<Rightarrow> bool" where
  "MeetBlackDemand sequence black_demand X =
     list_all (\<lambda>j. sum_IJ sequence j (var_ref X) = param black_demand j) (remdups sequence)"

definition MeetWhiteDemand :: "'a list \<Rightarrow> 'a demand \<Rightarrow> int list \<Rightarrow> bool" where
  "MeetWhiteDemand sequence white_demand X =
     list_all (\<lambda>j. sum_IJ sequence j (\<lambda>i. 1 - var_ref X i) = param white_demand j)
       (remdups sequence)"

definition multi_paintshop_feasible ::
  "'a list \<Rightarrow> 'a demand \<Rightarrow> 'a demand \<Rightarrow> int list \<Rightarrow> int list \<Rightarrow> bool" where
  "multi_paintshop_feasible sequence white_demand black_demand X Z =
     (binary_var (length sequence) X \<and> binary_var (length sequence) Z \<and>
      LinearizeObjective1 X Z \<and> LinearizeObjective2 X Z \<and>
      MeetWhiteDemand sequence white_demand X \<and> MeetBlackDemand sequence black_demand X)"

definition multi_paintshop_optimal ::
  "'a list \<Rightarrow> 'a demand \<Rightarrow> 'a demand \<Rightarrow> int list \<Rightarrow> int list \<Rightarrow> bool" where
  "multi_paintshop_optimal sequence white_demand black_demand X Z =
     (multi_paintshop_feasible sequence white_demand black_demand X Z \<and>
      list_all (\<lambda>p. sum_list Z \<le> sum_list (snd p))
        (filter (\<lambda>p. multi_paintshop_feasible sequence white_demand black_demand (fst p) (snd p))
           (List.product (List.n_lists (length sequence) [0, 1])
              (List.n_lists (length sequence) [0, 1]))))"

subsection \<open>Reading an assignment\<close>

text \<open>
  The number of positions at which two neighbours differ, over every adjacent pair.
\<close>

fun adjacent_changes :: "'b list \<Rightarrow> nat" where
  "adjacent_changes (a # b # rest) = (if a \<noteq> b then 1 else 0) + adjacent_changes (b # rest)"
| "adjacent_changes [a] = 0"
| "adjacent_changes [] = 0"


text \<open>
  The colour a level of \<^verbatim>\<open>X\<close> stands for: \<^verbatim>\<open>MeetBlackDemand\<close> counts the ones of a
  type against its black demand, so 1 is black and 0 is white.
\<close>

definition color_of :: "int \<Rightarrow> color" where
  "color_of x = (if x = 0 then White else Black)"

text \<open>
  The count of changes as the specification's data model words it: the number of indices
  \<open>i\<close> in \<open>[0, N-2)\<close> with \<open>Assignment[i] \<noteq> Assignment[i+1]\<close>. The notebook has no such
  function; this definition follows the specification's sentence and is kept apart from
  \<^const>\<open>adjacent_changes\<close>, to be compared with what the notebook's cells report.
\<close>

definition spec_ChangeCount :: "'b list \<Rightarrow> nat" where
  "spec_ChangeCount assignment =
     length (filter (\<lambda>i. assignment ! i \<noteq> assignment ! (i + 1)) [0..<length assignment - 2])"

section \<open>GAMS labels\<close>




















section \<open>Instances\<close>

text \<open>
  The data cell of the general part draws, for each car type of the sequence, a white
  demand between 0 and the number of its occurrences, and sets the black demand to the rest:
  \<^verbatim>\<open>
  demand_white = {t: random.randint(0, sequence.count(t)) for t in types}
  demand_black = {t: sequence.count(t) - demand_white[t] for t in types}
  \<close>
  A valid instance is a non-empty sequence with two such dictionaries. Entries for car
  types that do not occur in the sequence are never read and are left open.
\<close>

definition valid_model :: "'a list \<Rightarrow> 'a demand \<Rightarrow> 'a demand \<Rightarrow> bool" where
  "valid_model sequence demand_white demand_black =
     (sequence \<noteq> [] \<and>
      list_all (\<lambda>t. case (demand_white t, demand_black t) of
                  (Some w, Some b) \<Rightarrow> 0 \<le> w \<and> 0 \<le> b \<and> w + b = int (count_list sequence t)
                | _ \<Rightarrow> False) (remdups sequence))"

text \<open>The fixed sequence of the notebook, and the levels of \<^verbatim>\<open>X\<close> its solver run prints.\<close>

definition sequence12 :: "string list" where
  "sequence12 = [''A'', ''D'', ''E'', ''B'', ''A'', ''F'', ''C'', ''B'', ''C'', ''D'', ''E'', ''F'']"

definition X12 :: "int list" where
  "X12 = [0, 1, 1, 1, 1, 1, 1, 0, 0, 0, 0, 0]"



text \<open>Small instances on which the definitions are evaluated.\<close>

definition single_sequence :: "string list" where
  "single_sequence = [''A'']"

definition single_zero :: "string demand" where
  "single_zero = [''A'' \<mapsto> 0]"

definition single_one :: "string demand" where
  "single_one = [''A'' \<mapsto> 1]"

definition pair_sequence :: "string list" where
  "pair_sequence = [''A'', ''A'']"


definition four_sequence :: "string list" where
  "four_sequence = [''A'', ''B'', ''C'', ''B'']"

definition four_white :: "string demand" where
  "four_white = [''A'' \<mapsto> 1, ''B'' \<mapsto> 1, ''C'' \<mapsto> 0]"

definition four_black :: "string demand" where
  "four_black = [''A'' \<mapsto> 0, ''B'' \<mapsto> 1, ''C'' \<mapsto> 1]"







section \<open>Notions used in the proofs\<close>



text \<open>
  The relation between the states of the two heuristics on a sequence in which every type
  occurs twice: a type is in the set of a colour exactly when the capacity of that colour
  for it is used up.
\<close>

definition agree :: "'a set \<Rightarrow> 'a set heuristic_state \<Rightarrow> 'a demand heuristic_state \<Rightarrow> 'a list \<Rightarrow> bool" where
  "agree D sb sg rest =
     (changes sb = changes sg \<and> result sb = result sg \<and> current_color sb = current_color sg \<and>
      set rest \<subseteq> D \<and>
      (\<forall>t\<in>D. \<forall>c. colors sg c t = Some (if t \<in> colors sb c then 0 else 1)) \<and>
      (\<forall>t\<in>D. (if t \<in> colors sb White then 1 else 0) + (if t \<in> colors sb Black then 1 else 0)
                + count_list rest t = (2::nat)))"


definition level_of :: "color \<Rightarrow> int" where
  "level_of c = (if c = Black then 1 else 0)"


section \<open>The program, list by list\<close>

lemma binary_lists_iff: "V \<in> set (List.n_lists n [0, 1]) \<longleftrightarrow> binary_var n V"
  by (auto simp: set_n_lists binary_var_def list_all_iff)

lemma var_ref_Cons_0: "var_ref (a # V) 0 = a"
  by (simp add: var_ref_def)

lemma var_ref_Cons_Suc: "var_ref (a # V) (Suc i) = var_ref V i"
  by (simp add: var_ref_def)

lemma var_ref_Nil: "var_ref [] i = 0"
  by (simp add: var_ref_def)

lemma var_ref_binary:
  "list_all (\<lambda>v. v = 0 \<or> v = 1) V \<Longrightarrow> var_ref V i = 0 \<or> var_ref V i = 1"
  by (auto simp: var_ref_def list_all_length)

lemma upt_0_Suc_map: "[0..<Suc n] = 0 # map Suc [0..<n]"
  by (simp add: upt_conv_Cons map_Suc_upt del: upt_Suc)

lemma obj_Nil: "obj [] = 0"
  by (simp add: obj_def)

lemma obj_Cons: "obj (a # V) = (a - var_ref V 0)\<^sup>2 + obj V"
  by (simp add: obj_def upt_0_Suc_map var_ref_Cons_0 var_ref_Cons_Suc comp_def del: upt_Suc)

lemma IJ_Nil: "IJ [] = []"
  by (simp add: IJ_def)

lemma IJ_Cons: "IJ (t # sequence) = (0, t) # map (\<lambda>r. (Suc (fst r), snd r)) (IJ sequence)"
  by (simp add: IJ_def upt_0_Suc_map zip_map1 case_prod_beta del: upt_Suc)

lemma sum_IJ_Nil: "sum_IJ [] j f = 0"
  by (simp add: sum_IJ_def IJ_Nil)

lemma sum_IJ_Cons:
  "sum_IJ (t # sequence) j f = (if t = j then f 0 else 0) + sum_IJ sequence j (\<lambda>i. f (Suc i))"
  by (simp add: sum_IJ_def IJ_Cons filter_map comp_def)

lemma sum_IJ_var_ref_Cons:
  "sum_IJ (t # sequence) j (var_ref (a # V)) = (if t = j then a else 0) + sum_IJ sequence j (var_ref V)"
  by (simp add: sum_IJ_Cons var_ref_Cons_0 var_ref_Cons_Suc)



text \<open>
  On zero-one levels the objective of the binary model is the number of adjacent changes
  plus the level of the last position: the term of the last position compares that level
  with the vanished reference.
\<close>

lemma obj_binary:
  "list_all (\<lambda>v. v = 0 \<or> v = 1) V \<Longrightarrow>
     obj V = int (adjacent_changes V) + var_ref V (length V - 1)"
proof (induction V rule: adjacent_changes.induct)
  case (1 a b rest)
  then show ?case
    by (auto simp: obj_Cons var_ref_Cons_0 var_ref_Cons_Suc)
next
  case (2 a)
  then show ?case by (auto simp: obj_Cons obj_Nil var_ref_Cons_0 var_ref_Nil)
next
  case 3
  then show ?case by (simp add: obj_Nil var_ref_Nil)
qed

lemma paintshop_optimal_iff:
  "paintshop_optimal sequence X \<longleftrightarrow>
     paintshop_feasible sequence X \<and> (\<forall>X'. paintshop_feasible sequence X' \<longrightarrow> obj X \<le> obj X')"
  by (auto simp: paintshop_optimal_def list_all_iff binary_lists_iff paintshop_feasible_def)






















section \<open>The general heuristic on a valid instance\<close>

lemma color_cases: "(\<forall>c::color. P c) \<longleftrightarrow> P White \<and> P Black"
  by (metis color.exhaust)








lemma heuristic_step_total:
  assumes "\<forall>c. colors s c car \<noteq> None"
  shows "\<exists>s'. heuristic_step car s = Inr s' \<and> length (result s') = length (result s) + 1 \<and>
           (\<forall>c t. colors s c t \<noteq> None \<longrightarrow> colors s' c t \<noteq> None)"
proof -
  from assms obtain w b where wb: "colors s White car = Some w" "colors s Black car = Some b"
    unfolding color_cases by auto
  then show ?thesis
    by (cases "current_color s") (auto simp: heuristic_step_def paint_car_def)
qed

lemma heuristic_loop_total:
  assumes "\<forall>t\<in>set rest. \<forall>c. colors s c t \<noteq> None"
  shows "\<exists>s'. heuristic_loop rest s = Inr s' \<and> length (result s') = length (result s) + length rest"
  using assms
proof (induction rest arbitrary: s)
  case Nil
  then show ?case by simp
next
  case (Cons car rest)
  then have "\<forall>c. colors s c car \<noteq> None" by simp
  from heuristic_step_total [OF this] obtain s1
    where s1: "heuristic_step car s = Inr s1" "length (result s1) = length (result s) + 1"
      "\<forall>c t. colors s c t \<noteq> None \<longrightarrow> colors s1 c t \<noteq> None"
    by blast
  with Cons.prems have "\<forall>t\<in>set rest. \<forall>c. colors s1 c t \<noteq> None" by simp
  from Cons.IH [OF this] s1(1,2) show ?case by auto
qed

section \<open>The two heuristics on a sequence in which every type occurs twice\<close>

lemma agree_step:
  assumes "agree D sb sg (car # rest)"
  shows "\<exists>sg'. heuristic_step car sg = Inr sg' \<and> agree D (binary_step car sb) sg' rest"
proof -
  let ?cur = "current_color sb"
  let ?oth = "if ?cur = White then Black else White"
  from assms have car: "car \<in> D" and cur: "current_color sg = ?cur"
    and ch: "changes sb = changes sg" and res: "result sb = result sg"
    and rest: "set rest \<subseteq> D"
    and cap: "\<And>t c. t \<in> D \<Longrightarrow> colors sg c t = Some (if t \<in> colors sb c then 0 else 1)"
    and cnt: "\<And>t. t \<in> D \<Longrightarrow> (if t \<in> colors sb White then 1 else 0) + (if t \<in> colors sb Black then 1 else 0)
                + count_list (car # rest) t = (2::nat)"
    by (simp_all add: agree_def)
  show ?thesis
  proof (cases "car \<in> colors sb ?cur")
    case False
    let ?sg' = "sg\<lparr>colors := (colors sg)(?cur := (colors sg ?cur)(car \<mapsto> 0)), result := result sg @ [?cur]\<rparr>"
    from False cap [OF car, of ?cur] cur have step: "heuristic_step car sg = Inr ?sg'"
      by (simp add: heuristic_step_def paint_car_def)
    have "agree D (binary_step car sb) ?sg' rest"
      unfolding agree_def
    proof (intro conjI ballI allI)
      fix t c assume t: "t \<in> D"
      from cap [OF t, of c] False
      show "colors ?sg' c t = Some (if t \<in> colors (binary_step car sb) c then 0 else 1)"
        by (auto simp: binary_step_def paint_car_set_def)
    next
      fix t assume t: "t \<in> D"
      from cnt [OF t] False
      show "(if t \<in> colors (binary_step car sb) White then 1 else 0)
          + (if t \<in> colors (binary_step car sb) Black then 1 else 0) + count_list rest t = (2::nat)"
        by (cases ?cur) (auto simp: binary_step_def paint_car_set_def split: if_splits)
    qed (use False ch res cur rest in \<open>simp_all add: binary_step_def paint_car_set_def\<close>)
    with step show ?thesis by blast
  next
    case True
    from cnt [OF car] True have noth: "car \<notin> colors sb ?oth"
      by (cases ?cur) (auto split: if_splits)
    let ?sg' = "\<lparr>changes = changes sg + 1,
                 colors = (colors sg)(?oth := (colors sg ?oth)(car \<mapsto> 0)),
                 result = result sg @ [?oth], current_color = ?oth\<rparr>"
    from True noth cap [OF car, of ?cur] cap [OF car, of ?oth] cur
    have step: "heuristic_step car sg = Inr ?sg'"
      by (simp add: heuristic_step_def paint_car_def)
    have "agree D (binary_step car sb) ?sg' rest"
      unfolding agree_def
    proof (intro conjI ballI allI)
      fix t c assume t: "t \<in> D"
      from cap [OF t, of c] True
      show "colors ?sg' c t = Some (if t \<in> colors (binary_step car sb) c then 0 else 1)"
        by (auto simp: binary_step_def paint_car_set_def)
    next
      fix t assume t: "t \<in> D"
      from cnt [OF t] True noth
      show "(if t \<in> colors (binary_step car sb) White then 1 else 0)
          + (if t \<in> colors (binary_step car sb) Black then 1 else 0) + count_list rest t = (2::nat)"
        by (cases ?cur) (auto simp: binary_step_def paint_car_set_def split: if_splits)
    qed (use True ch res cur rest in \<open>simp_all add: binary_step_def paint_car_set_def\<close>)
    with step show ?thesis by blast
  qed
qed

lemma agree_loop:
  assumes "agree D sb sg rest"
  shows "\<exists>sg'. heuristic_loop rest sg = Inr sg' \<and>
           result sg' = result (binary_loop rest sb) \<and>
           changes sg' = changes (binary_loop rest sb)"
  using assms
proof (induction rest arbitrary: sb sg)
  case Nil
  then show ?case by (simp add: agree_def)
next
  case (Cons car rest)
  from agree_step [OF Cons.prems] obtain sg1
    where "heuristic_step car sg = Inr sg1" "agree D (binary_step car sb) sg1 rest"
    by blast
  with Cons.IH [OF this(2)] show ?case by simp
qed

lemma binary_general_agree:
  assumes twice: "\<forall>t\<in>set sequence. count_list sequence t = 2"
    and ones: "\<forall>t\<in>set sequence. dw t = Some 1 \<and> db t = Some 1"
  shows "heuristic sequence dw db = Inr (binary_heuristic sequence)"
proof -
  have "agree (set sequence) binary_init (heuristic_init dw db) sequence"
    unfolding agree_def color_cases using twice ones
    by (simp add: binary_init_def heuristic_init_def)
  from agree_loop [OF this] show ?thesis
    by (auto simp: heuristic_def binary_heuristic_def Let_def)
qed


section \<open>The fixed sequence\<close>

lemma feasible_X12: "paintshop_feasible sequence12 X12"
  by (simp add: paintshop_feasible_def binary_var_def equation_two_def sequence12_def X12_def
      sum_IJ_var_ref_Cons sum_IJ_Nil)

lemma obj_X12: "obj X12 = 2"
  by (simp add: X12_def obj_Cons obj_Nil var_ref_Cons_0 var_ref_Nil)

lemma length12:
  assumes "length X = 12"
  obtains x0 x1 x2 x3 x4 x5 x6 x7 x8 x9 x10 x11 :: int
  where "X = [x0, x1, x2, x3, x4, x5, x6, x7, x8, x9, x10, x11]"
  using assms by (auto simp: length_Suc_conv eval_nat_numeral)

lemma differ_in_4: "(a::int) \<noteq> e \<Longrightarrow>
  (1::nat) \<le> (if a \<noteq> b then 1 else 0) + ((if b \<noteq> c then 1 else 0) + ((if c \<noteq> d then 1 else 0) + (if d \<noteq> e then 1 else 0)))"
  by auto

lemma differ_in_2: "(a::int) \<noteq> c \<Longrightarrow>
  (1::nat) \<le> (if a \<noteq> b then 1 else 0) + (if b \<noteq> c then 1 else 0)"
  by auto

lemma feasible12_changes:
  assumes "paintshop_feasible sequence12 X"
  shows "2 \<le> adjacent_changes X"
proof -
  from assms have len: "length X = 12"
    by (simp add: paintshop_feasible_def binary_var_def sequence12_def)
  then obtain x0 x1 x2 x3 x4 x5 x6 x7 x8 x9 x10 x11 :: int
    where X: "X = [x0, x1, x2, x3, x4, x5, x6, x7, x8, x9, x10, x11]"
    by (rule length12)
  from assms have "equation_two sequence12 X"
    by (simp add: paintshop_feasible_def)
  then have A: "x0 + x4 = 1" and C: "x6 + x8 = 1"
    unfolding X by (simp_all add: equation_two_def sequence12_def sum_IJ_var_ref_Cons sum_IJ_Nil)
  from assms have bin: "list_all (\<lambda>v. v = 0 \<or> v = 1) X"
    by (simp add: paintshop_feasible_def binary_var_def)
  from A have "x0 \<noteq> x4" by presburger
  from differ_in_4 [OF this, of x1 x2 x3]
  have one: "(1::nat) \<le> (if x0 \<noteq> x1 then 1 else 0) + ((if x1 \<noteq> x2 then 1 else 0) + ((if x2 \<noteq> x3 then 1 else 0) + (if x3 \<noteq> x4 then 1 else 0)))" .
  from C have "x6 \<noteq> x8" by presburger
  from differ_in_2 [OF this, of x7]
  have two: "(1::nat) \<le> (if x6 \<noteq> x7 then 1 else 0) + (if x7 \<noteq> x8 then 1 else 0)" .
  have "adjacent_changes X =
     ((if x0 \<noteq> x1 then 1 else 0) + ((if x1 \<noteq> x2 then 1 else 0) + ((if x2 \<noteq> x3 then 1 else 0) + (if x3 \<noteq> x4 then 1 else 0))))
     + (if x4 \<noteq> x5 then 1 else 0) + (if x5 \<noteq> x6 then 1 else 0)
     + ((if x6 \<noteq> x7 then 1 else 0) + (if x7 \<noteq> x8 then 1 else 0))
     + (if x8 \<noteq> x9 then 1 else 0) + (if x9 \<noteq> x10 then 1 else 0) + (if x10 \<noteq> x11 then 1 else 0)"
    unfolding X adjacent_changes.simps by (simp only: add.assoc)
  with one two show ?thesis by linarith
qed

section \<open>Evaluations on the small instances\<close>

lemmas program_defs =
  multi_paintshop_optimal_def multi_paintshop_feasible_def binary_var_def
  LinearizeObjective1_def LinearizeObjective2_def MeetWhiteDemand_def MeetBlackDemand_def
  param_def var_ref_def sum_IJ_def IJ_def

lemmas heuristic_defs =
  heuristic_def heuristic_init_def heuristic_step_def paint_car_def

lemma single_valid: "valid_model single_sequence single_zero single_one"
  by (simp add: valid_model_def single_sequence_def single_zero_def single_one_def)


lemma single_optimal: "multi_paintshop_optimal single_sequence single_zero single_one [1] [1]"
  by (simp add: program_defs single_sequence_def single_zero_def single_one_def)




lemma pair_binary_heuristic: "binary_heuristic pair_sequence = ([White, Black], 1)"
  by (simp add: binary_heuristic_def pair_sequence_def binary_init_def binary_step_def
      paint_car_set_def Let_def)

lemma four_valid: "valid_model four_sequence four_white four_black"
  by (simp add: valid_model_def four_sequence_def four_white_def four_black_def)

lemma four_heuristic:
  "heuristic four_sequence four_white four_black = Inr ([White, White, Black, Black], 1)"
  by (simp add: heuristic_defs four_sequence_def four_white_def four_black_def)

lemma four_optimal:
  "multi_paintshop_optimal four_sequence four_white four_black [0, 1, 1, 0] [1, 0, 1, 0]"
  by (simp add: program_defs four_sequence_def four_white_def four_black_def)

section \<open>Labels and loading\<close>
















section \<open>The binary model has an optimum\<close>






section \<open>Evaluations on the instances with labels\<close>















section \<open>The two solvers on a valid instance\<close>




section \<open>The claims\<close>

subsection \<open>The fixed sequence\<close>

text \<open>
  \<^bold>\<open>C1.\<close> On the sequence A D E B A F C B C D E F the binary model has the least objective
  value 2. The levels that the notebook prints are an optimum; every optimum has objective
  value 2 and two adjacent changes; and no feasible assignment has fewer than two adjacent
  changes.
\<close>

theorem C1_exact_optimizer_sequence12:
  "paintshop_optimal sequence12 X12 \<and> obj X12 = 2 \<and> adjacent_changes X12 = 2 \<and>
   (\<forall>X. paintshop_optimal sequence12 X \<longrightarrow> obj X = 2 \<and> adjacent_changes X = 2) \<and>
   (\<forall>X. paintshop_feasible sequence12 X \<longrightarrow> 2 \<le> adjacent_changes X)"
proof -
  have bound: "2 \<le> adjacent_changes X \<and> int (adjacent_changes X) \<le> obj X"
    if "paintshop_feasible sequence12 X" for X
  proof -
    from that have bin: "list_all (\<lambda>v. v = 0 \<or> v = 1) X"
      by (simp add: paintshop_feasible_def binary_var_def)
    from var_ref_binary [OF bin, of "length X - 1"] have "0 \<le> var_ref X (length X - 1)"
      by auto
    with obj_binary [OF bin] feasible12_changes [OF that] show ?thesis by simp
  qed
  have least: "2 \<le> obj X" if "paintshop_feasible sequence12 X" for X
    using bound [OF that] by simp
  have opt12: "paintshop_optimal sequence12 X12"
    using feasible_X12 least by (simp add: paintshop_optimal_iff obj_X12)
  have adj12: "adjacent_changes X12 = 2"
    by (simp add: X12_def)
  have every: "obj X = 2 \<and> adjacent_changes X = 2" if "paintshop_optimal sequence12 X" for X
  proof -
    from that have feas: "paintshop_feasible sequence12 X"
      and le: "obj X \<le> obj X12"
      using feasible_X12 by (simp_all add: paintshop_optimal_iff)
    with bound [OF feas] show ?thesis by (simp add: obj_X12)
  qed
  from opt12 adj12 every bound show ?thesis by (simp add: obj_X12)
qed

text \<open>The optimum that the notebook prints, read through the theorem.\<close>

theorem C1_witness:
  "paintshop_optimal sequence12 [0, 1, 1, 1, 1, 1, 1, 0, 0, 0, 0, 0] \<and>
   obj [0, 1, 1, 1, 1, 1, 1, 0, 0, 0, 0, 0] = 2 \<and>
   adjacent_changes [0, 1, 1, 1, 1, 1, 1, 0, 0, 0, 0, 0 :: int] = 2"
proof -
  from C1_exact_optimizer_sequence12 have opt: "paintshop_optimal sequence12 X12"
    and every: "\<forall>X. paintshop_optimal sequence12 X \<longrightarrow> obj X = 2 \<and> adjacent_changes X = 2"
    by simp_all
  from every opt have "obj X12 = 2 \<and> adjacent_changes X12 = 2" by blast
  with opt show ?thesis by (simp add: X12_def)
qed

text \<open>
  \<^bold>\<open>C2.\<close> On the sequence A D E B A F C B C D E F the binary heuristic prints the list
  white, white, white, white, black, black, black, black, white, black, black, white
  and four changes.
\<close>

theorem C2_binary_heuristic_sequence12:
  "binary_heuristic sequence12 =
     ([White, White, White, White, Black, Black, Black, Black, White, Black, Black, White], 4)"
  by (simp add: binary_heuristic_def sequence12_def binary_init_def binary_step_def
      paint_car_set_def Let_def)

subsection \<open>Every valid instance\<close>




text \<open>
  \<^bold>\<open>C4.\<close> The claim is that the heuristic's count of changes is never below the
  optimizer's. On the sequence A B C B, where A is to be white, C black, and B once each,
  the heuristic paints white, white, black, black and reports one change. The general model
  has the optimum \<open>X = 0 1 1 0\<close> with objective value 2, which is what the notebook reports
  as the optimizer's number of changes; its assignment white, black, black, white has two
  adjacent changes. The equation of the last position, where the reference
  \<^verbatim>\<open>X[i.lead(1)]\<close> vanishes, makes every assignment that ends in black cost one more than
  its changes, so the heuristic's own assignment costs 2 as well.
\<close>

theorem C4_heuristic_below_optimizer:
  "valid_model four_sequence four_white four_black \<and>
   heuristic four_sequence four_white four_black = Inr ([White, White, Black, Black], 1) \<and>
   adjacent_changes [White, White, Black, Black] = 1 \<and>
   multi_paintshop_optimal four_sequence four_white four_black [0, 1, 1, 0] [1, 0, 1, 0] \<and>
   sum_list [1, 0, 1, 0 :: int] = 2 \<and>
   map color_of [0, 1, 1, 0] = [White, Black, Black, White] \<and>
   adjacent_changes [White, Black, Black, White] = 2 \<and>
   obj (map level_of [White, White, Black, Black]) = 2"
  using four_valid four_heuristic four_optimal
  by (simp add: color_of_def level_of_def obj_Cons obj_Nil var_ref_Cons_0 var_ref_Nil)




text \<open>
  \<^bold>\<open>C6.\<close> The claim is that the least value of \<^verbatim>\<open>gp.Sum(i, Z[i])\<close> is the least number of
  adjacent changes over the feasible assignments. On the one-car sequence A with white
  demand 0 and black demand 1 the only feasible point of the general model is
  \<open>X = 1, Z = 1\<close>: the equation \<^verbatim>\<open>LinearizeObjective1\<close> of the only position reads
  \<open>Z \<ge> X - 0\<close>. The least objective value is 1; the assignment has no adjacent pair, so the
  least number of adjacent changes is 0.
\<close>

theorem C6_linearised_objective_single:
  "valid_model single_sequence single_zero single_one \<and>
   filter (\<lambda>p. multi_paintshop_feasible single_sequence single_zero single_one (fst p) (snd p))
     (List.product (List.n_lists 1 [0, 1]) (List.n_lists 1 [0, 1])) = [([1], [1])] \<and>
   multi_paintshop_optimal single_sequence single_zero single_one [1] [1] \<and>
   sum_list [1 :: int] = 1 \<and>
   adjacent_changes [1 :: int] = 0 \<and> spec_ChangeCount [1 :: int] = 0"
proof -
  have "filter (\<lambda>p. multi_paintshop_feasible single_sequence single_zero single_one (fst p) (snd p))
     (List.product (List.n_lists 1 [0, 1]) (List.n_lists 1 [0, 1])) = [([1], [1])]"
    by (simp add: program_defs single_sequence_def single_zero_def single_one_def)
  with single_valid single_optimal show ?thesis by (simp add: spec_ChangeCount_def)
qed




subsection \<open>Failures\<close>

text \<open>
  \<^bold>\<open>C8.\<close> The claim is that the heuristic fails when neither colour has capacity left for
  the car at hand. On the sequence A with white demand 0 and black demand 0 the heuristic
  returns the assignment black and one change.
\<close>

theorem C8_counterexample:
  "heuristic single_sequence single_zero single_zero = Inr ([Black], 1)"
  by (simp add: heuristic_defs single_sequence_def single_zero_def)

text \<open>
  \<^bold>\<open>C8, amended.\<close> When the current colour has no capacity left for the car at hand and
  the other colour has none either, the loop body does not fail: it counts one change,
  switches to the other colour, paints the car with it and lowers that colour's capacity
  for the type below zero. The loop then goes on, and ends with one colour per car, as long
  as every later car type has an entry in both dictionaries.
\<close>

theorem C8_no_capacity_step:
  assumes cur: "colors s (current_color s) car = Some k" "k \<le> 0"
    and cc: "cc = (if current_color s = White then Black else White)"
    and oth: "colors s cc car = Some k'" "k' \<le> 0"
    and keys: "list_all (\<lambda>t. colors s White t \<noteq> None \<and> colors s Black t \<noteq> None) rest"
  shows "heuristic_step car s =
           Inr \<lparr>changes = changes s + 1,
                colors = (colors s)(cc := (colors s cc)(car \<mapsto> k' - 1)),
                result = result s @ [cc], current_color = cc\<rparr> \<and>
         k' - 1 < 0 \<and>
         (\<exists>s'. heuristic_loop (car # rest) s = Inr s' \<and>
               length (result s') = length (result s) + length (car # rest))"
proof (intro conjI)
  from cur cc oth show "heuristic_step car s =
           Inr \<lparr>changes = changes s + 1,
                colors = (colors s)(cc := (colors s cc)(car \<mapsto> k' - 1)),
                result = result s @ [cc], current_color = cc\<rparr>"
    by (simp add: heuristic_step_def paint_car_def)
  from oth show "k' - 1 < 0" by simp
  have "\<forall>c. colors s c car \<noteq> None"
    unfolding color_cases using cur(1) oth(1) cc by (cases "current_color s") auto
  with keys have "\<forall>t\<in>set (car # rest). \<forall>c. colors s c t \<noteq> None"
    unfolding color_cases by (simp add: list_all_iff)
  from heuristic_loop_total [OF this]
  show "\<exists>s'. heuristic_loop (car # rest) s = Inr s' \<and>
               length (result s') = length (result s) + length (car # rest)" .
qed

theorem C8_witness:
  "heuristic_step ''A'' (heuristic_init single_zero single_zero) =
     Inr \<lparr>changes = 1,
          colors = (colors (heuristic_init single_zero single_zero))
                     (Black := (single_zero :: string demand)(''A'' \<mapsto> - 1)),
          result = [Black], current_color = Black\<rparr> \<and>
   (\<exists>s'. heuristic_loop [''A''] (heuristic_init single_zero single_zero) = Inr s' \<and>
         length (result s') = 1)"
proof -
  let ?s = "heuristic_init single_zero single_zero :: string demand heuristic_state"
  have cur: "colors ?s (current_color ?s) ''A'' = Some 0" "(0::int) \<le> 0"
    by (simp_all add: heuristic_init_def single_zero_def)
  have cc: "Black = (if current_color ?s = White then Black else White)"
    by (simp add: heuristic_init_def)
  have oth: "colors ?s Black ''A'' = Some 0"
    by (simp add: heuristic_init_def single_zero_def)
  have keys: "list_all (\<lambda>t. colors ?s White t \<noteq> None \<and> colors ?s Black t \<noteq> None) []"
    by simp
  from C8_no_capacity_step [OF cur cc oth cur(2) keys]
  show ?thesis by (simp add: heuristic_init_def)
qed




subsection \<open>The two heuristics\<close>

text \<open>
  \<^bold>\<open>C10.\<close> On a sequence in which every type occurs exactly twice, with white demand 1 and
  black demand 1 for every type, the general heuristic returns what the binary heuristic
  returns: the same assignment and the same number of changes.
\<close>

theorem C10_heuristics_agree:
  assumes "list_all (\<lambda>t. count_list sequence t = 2) (remdups sequence)"
    and "list_all (\<lambda>t. demand_white t = Some 1 \<and> demand_black t = Some 1) (remdups sequence)"
  shows "heuristic sequence demand_white demand_black = Inr (binary_heuristic sequence)"
  using assms by (intro binary_general_agree) (simp_all add: list_all_iff)

theorem C10_witness:
  "list_all (\<lambda>t. count_list pair_sequence t = 2) (remdups pair_sequence) \<and>
   list_all (\<lambda>t. single_one t = Some 1 \<and> single_one t = Some 1) (remdups pair_sequence) \<and>
   heuristic pair_sequence single_one single_one = Inr ([White, Black], 1) \<and>
   binary_heuristic pair_sequence = ([White, Black], 1)"
proof -
  have twice: "list_all (\<lambda>t. count_list pair_sequence t = 2) (remdups pair_sequence)"
    by (simp add: pair_sequence_def)
  have ones: "list_all (\<lambda>t. single_one t = Some 1 \<and> single_one t = Some 1) (remdups pair_sequence)"
    by (simp add: pair_sequence_def single_one_def)
  from C10_heuristics_agree [OF twice ones] pair_binary_heuristic twice ones
  show ?thesis by simp
qed

end
